theory Spec2Isabelle
  imports Main "HOL-Library.Sublist"
begin

section \<open>The release publisher \<^verbatim>\<open>.ci/update_release.py\<close>\<close>

text \<open>
  The script is one straight-line procedure: three environment variables, a split of
  \<^verbatim>\<open>owner/name\<close>, a read of the \<^verbatim>\<open>VERSION\<close> file, a release lookup by
  tag and one upload per \<^verbatim>\<open>*.gz\<close> file of the output directory. It has no function
  of its own; the model below names each step after the call or variable of the script.

  Every effect is explicit. The calls the script makes are appended to a trace in the
  order in which it makes them, an exception is the \<open>Inl\<close> of a sum and ends the
  run, and the file system is part of the state that every step returns.
\<close>

subsection \<open>Paths and the file system\<close>

text \<open>
  A resolved \<^verbatim>\<open>pathlib.Path\<close> is absolute: it is modelled by its components below
  the root. \<^verbatim>\<open>p / name\<close> appends a component, \<^verbatim>\<open>p.name\<close> is the last one and
  \<^verbatim>\<open>str(p)\<close> joins them with slashes.
\<close>

type_synonym path = "string list"

definition path_str :: "path \<Rightarrow> string" where
  "path_str p = (if p = [] then ''/'' else concat (map (\<lambda>c. CHR ''/'' # c) p))"

definition path_name :: "path \<Rightarrow> string" where
  "path_name p = (if p = [] then [] else last p)"

text \<open>
  The file system as the script reads it. \<open>resolve\<close> is \<^verbatim>\<open>Path(...).resolve()\<close>
  (it depends on the working directory and on symbolic links, which are not modelled
  further); \<open>dirs\<close> gives the entry names of a directory in the order in which the
  directory scan yields them; \<open>files\<close> gives the contents of the paths that can be
  opened for reading, as \<^verbatim>\<open>read_text\<close> and a read of the handle deliver them. A path
  outside \<open>dom files\<close> (missing, a directory, unreadable) makes a read raise.
\<close>

record filesystem =
  resolve :: "string \<Rightarrow> path"
  dirs :: "path \<rightharpoonup> string list"
  files :: "path \<rightharpoonup> string"

subsection \<open>Exceptions\<close>

text \<open>
  Nothing is caught in the script, so every exception ends the run. \<open>EnvVarNotSet\<close>
  is the failure of \<^verbatim>\<open>util.check_env\<close>, \<open>ValueError\<close> the failure of the tuple
  unpacking of the split (both configuration errors in the specification's terms),
  \<open>OSError\<close> a failed read or open (file access error), \<open>NotFoundError\<close> the
  not-found signal of the release lookup, and \<open>CfgError\<close> and \<open>GitHubError\<close> stand
  for whatever else the configuration resolver and the hosting API raise.
\<close>

datatype exn =
    EnvVarNotSet string
  | ValueError
  | OSError path
  | CfgError string
  | NotFoundError
  | GitHubError string

subsection \<open>External collaborators\<close>

text \<open>
  The configuration resolver and the hosting API are libraries outside the repository.
  Their handles are opaque to the script and are modelled by numbers; their behaviour is
  a parameter of the run.
\<close>

type_synonym github_cfg = nat
type_synonym repository = nat
type_synonym release = nat

record file_handle =
  handle_path :: path
  handle_data :: string

record asset =
  asset_content_type :: string
  asset_name :: string
  asset_data :: string

text \<open>
  \<open>environ\<close> is \<^verbatim>\<open>os.environ\<close>. \<open>cfg_github\<close> is
  \<^verbatim>\<open>util.ctx().cfg_factory().github(name)\<close>, \<open>repository_helper\<close> the constructor
  \<^verbatim>\<open>GitHubRepositoryHelper(owner, name, github_cfg)\<close> with its \<^verbatim>\<open>repository\<close>
  attribute, \<open>api_release_from_tag\<close> the lookup of a release by tag, and
  \<open>api_upload_asset\<close> the outcome of an upload (\<open>None\<close> when it succeeds), which may
  depend on the assets already attached.
\<close>

record world =
  environ :: "string \<rightharpoonup> string"
  cfg_github :: "string \<Rightarrow> exn + github_cfg"
  repository_helper :: "string \<Rightarrow> string \<Rightarrow> github_cfg \<Rightarrow> exn + repository"
  api_release_from_tag :: "repository \<Rightarrow> string \<Rightarrow> exn + release"
  api_upload_asset :: "(release \<times> asset) list \<Rightarrow> release \<Rightarrow> asset \<Rightarrow> exn option"

subsection \<open>State and trace\<close>

datatype event =
    ReadText path
  | CfgGithub string
  | NewRepositoryHelper string string github_cfg
  | ReleaseFromTag repository string
  | Glob path string
  | Print string
  | OpenRb path
  | UploadAsset release string string file_handle

text \<open>
  \<open>trace\<close> is the sequence of calls made so far, each recorded when it is made (so a
  call that raises is in the trace). \<open>assets\<close> are the assets attached to releases on
  the hosting side. \<open>open_handles\<close> are the files the script has opened and not closed:
  a handle leaves this list only through \<^verbatim>\<open>close()\<close> or the end of a
  \<^verbatim>\<open>with\<close> block, and what the runtime's garbage collector does with an
  unreferenced file object is outside the model.
\<close>

record state =
  fs :: filesystem
  trace :: "event list"
  assets :: "(release \<times> asset) list"
  open_handles :: "path list"

definition emit :: "event \<Rightarrow> state \<Rightarrow> state" where
  "emit e s = s\<lparr>trace := trace s @ [e]\<rparr>"

subsection \<open>Library calls of the script\<close>

text \<open>
  Modelled from the spec: \<^verbatim>\<open>util.check_env\<close> is a helper of the CI library and not
  part of the sources; the specification says that a required environment variable
  that is absent makes the run fail fast.
\<close>

definition check_env :: "world \<Rightarrow> string \<Rightarrow> exn + string" where
  "check_env w var =
     (case environ w var of None \<Rightarrow> Inl (EnvVarNotSet var) | Some v \<Rightarrow> Inr v)"

text \<open>
  \<^verbatim>\<open>str.split(sep)\<close> for a separator of one character: the pieces between the
  separators, empty pieces included; a string without the separator is its own single
  piece.
\<close>

fun split_str :: "char \<Rightarrow> string \<Rightarrow> string list" where
  "split_str sep [] = [[]]"
| "split_str sep (c # cs) =
     (if c = sep then [] # split_str sep cs
      else (case split_str sep cs of
              [] \<Rightarrow> [[c]]
            | piece # pieces \<Rightarrow> (c # piece) # pieces))"

text \<open>The unpacking \<^verbatim>\<open>a, b = parts\<close>: exactly two values, or \<^verbatim>\<open>ValueError\<close>.\<close>

definition unpack2 :: "string list \<Rightarrow> exn + string \<times> string" where
  "unpack2 parts = (case parts of [a, b] \<Rightarrow> Inr (a, b) | _ \<Rightarrow> Inl ValueError)"

text \<open>
  Matching of one path component against a glob pattern, for the pattern characters
  \<^verbatim>\<open>*\<close> (any run of characters, the empty one included, a leading dot too) and
  \<^verbatim>\<open>?\<close> (any one character); every other character stands for itself. Character
  classes are not modelled: the script's pattern \<^verbatim>\<open>*.gz\<close> has none.
\<close>

fun glob_match :: "string \<Rightarrow> string \<Rightarrow> bool" where
  "glob_match [] cs = (cs = [])"
| "glob_match (p # ps) [] = (p = CHR ''*'' \<and> glob_match ps [])"
| "glob_match (p # ps) (c # cs) =
     (if p = CHR ''*'' then glob_match ps (c # cs) \<or> glob_match (p # ps) cs
      else (p = CHR ''?'' \<or> p = c) \<and> glob_match ps cs)"

text \<open>\<^verbatim>\<open>Path.read_text()\<close>: the contents, or \<^verbatim>\<open>OSError\<close>; the file is not changed.\<close>

definition read_text :: "path \<Rightarrow> state \<Rightarrow> (exn + string) \<times> state" where
  "read_text p s =
     ((case files (fs s) p of None \<Rightarrow> Inl (OSError p) | Some t \<Rightarrow> Inr t),
      emit (ReadText p) s)"

text \<open>
  \<^verbatim>\<open>list(p.glob(pattern))\<close> for a pattern of one component: the immediate children of
  \<open>p\<close> whose name matches, in scan order. A path that is not a directory has no
  children, and that is not an error.
\<close>

definition glob_paths :: "path \<Rightarrow> string \<Rightarrow> state \<Rightarrow> path list \<times> state" where
  "glob_paths p pat s =
     ((case dirs (fs s) p of
         None \<Rightarrow> []
       | Some names \<Rightarrow> map (\<lambda>n. p @ [n]) (filter (glob_match pat) names)),
      emit (Glob p pat) s)"

text \<open>\<^verbatim>\<open>Path.open(mode='rb')\<close>: a handle on the contents, or \<^verbatim>\<open>OSError\<close>.\<close>

definition open_rb :: "path \<Rightarrow> state \<Rightarrow> (exn + file_handle) \<times> state" where
  "open_rb p s =
     (case files (fs s) p of
        None \<Rightarrow> (Inl (OSError p), emit (OpenRb p) s)
      | Some d \<Rightarrow>
          (Inr \<lparr>handle_path = p, handle_data = d\<rparr>,
           (emit (OpenRb p) s)\<lparr>open_handles := open_handles s @ [p]\<rparr>))"

definition github :: "world \<Rightarrow> string \<Rightarrow> state \<Rightarrow> (exn + github_cfg) \<times> state" where
  "github w cfg_name s = (cfg_github w cfg_name, emit (CfgGithub cfg_name) s)"

definition GitHubRepositoryHelper ::
  "world \<Rightarrow> string \<Rightarrow> string \<Rightarrow> github_cfg \<Rightarrow> state \<Rightarrow> (exn + repository) \<times> state" where
  "GitHubRepositoryHelper w owner nm cfg s =
     (repository_helper w owner nm cfg, emit (NewRepositoryHelper owner nm cfg) s)"

definition release_from_tag ::
  "world \<Rightarrow> repository \<Rightarrow> string \<Rightarrow> state \<Rightarrow> (exn + release) \<times> state" where
  "release_from_tag w repo tag s =
     (api_release_from_tag w repo tag, emit (ReleaseFromTag repo tag) s)"

text \<open>
  \<^verbatim>\<open>gh_release.upload_asset(content_type, name, asset)\<close>: the call is made, and the
  asset is attached unless the hosting side refuses it.
\<close>

definition upload_asset ::
  "world \<Rightarrow> release \<Rightarrow> string \<Rightarrow> string \<Rightarrow> file_handle \<Rightarrow> state \<Rightarrow> (exn + unit) \<times> state" where
  "upload_asset w rel ctype nm h s =
     (let s1 = emit (UploadAsset rel ctype nm h) s;
          a = \<lparr>asset_content_type = ctype, asset_name = nm, asset_data = handle_data h\<rparr>
      in case api_upload_asset w (assets s1) rel a of
           Some e \<Rightarrow> (Inl e, s1)
         | None \<Rightarrow> (Inr (), s1\<lparr>assets := assets s1 @ [(rel, a)]\<rparr>))"

subsection \<open>The script\<close>

text \<open>The two constants of the script; \<^verbatim>\<open>OUTPUT_FILE_NAME\<close> is never used.\<close>

definition OUTPUT_FILE_NAME :: string where
  "OUTPUT_FILE_NAME = ''build-result''"

definition VERSION_FILE_NAME :: string where
  "VERSION_FILE_NAME = ''VERSION''"

text \<open>The progress line of the loop body, an f-string around \<^verbatim>\<open>str(output_file)\<close>.\<close>

definition attaching_line :: "path \<Rightarrow> string" where
  "attaching_line output_file =
     ''Attaching file '' @ path_str output_file @ '' to the GitHub release''"

text \<open>
  The body of the \<^verbatim>\<open>for\<close> loop: print, then evaluate the arguments of the call (the
  open is the last of them), then call \<^verbatim>\<open>upload_asset\<close>. Nothing closes the handle.
\<close>

definition attach_file :: "world \<Rightarrow> release \<Rightarrow> path \<Rightarrow> state \<Rightarrow> (exn + unit) \<times> state" where
  "attach_file w gh_release output_file s =
     (case open_rb output_file (emit (Print (attaching_line output_file)) s) of
        (Inl e, s') \<Rightarrow> (Inl e, s')
      | (Inr h, s') \<Rightarrow>
          upload_asset w gh_release ''application/gzip'' (path_name output_file) h s')"

text \<open>The loop \<^verbatim>\<open>for output_file in output_files\<close>: the first exception ends it.\<close>

fun attach_files :: "world \<Rightarrow> release \<Rightarrow> path list \<Rightarrow> state \<Rightarrow> (exn + unit) \<times> state" where
  "attach_files w gh_release [] s = (Inr (), s)"
| "attach_files w gh_release (output_file # output_files) s =
     (case attach_file w gh_release output_file s of
        (Inl e, s') \<Rightarrow> (Inl e, s')
      | (Inr u, s') \<Rightarrow> attach_files w gh_release output_files s')"

text \<open>
  Lines 11 to 31 of the script, up to the release lookup: the result is the release
  handle together with the value of \<^verbatim>\<open>OUT_PATH\<close>.
\<close>

definition gh_release_of :: "world \<Rightarrow> state \<Rightarrow> (exn + release \<times> string) \<times> state" where
  "gh_release_of w s =
     (case check_env w ''SOURCE_GITHUB_REPO_OWNER_AND_NAME'' of
        Inl e \<Rightarrow> (Inl e, s)
      | Inr repo_owner_and_name \<Rightarrow>
     (case check_env w ''MAIN_REPO_DIR'' of
        Inl e \<Rightarrow> (Inl e, s)
      | Inr repo_dir \<Rightarrow>
     (case check_env w ''OUT_PATH'' of
        Inl e \<Rightarrow> (Inl e, s)
      | Inr output_dir \<Rightarrow>
     (case unpack2 (split_str CHR ''/'' repo_owner_and_name) of
        Inl e \<Rightarrow> (Inl e, s)
      | Inr (repo_owner, repo_name) \<Rightarrow>
     (case read_text (resolve (fs s) repo_dir @ [VERSION_FILE_NAME]) s of
        (Inl e, s1) \<Rightarrow> (Inl e, s1)
      | (Inr version_file_contents, s1) \<Rightarrow>
     (case github w ''github_com'' s1 of
        (Inl e, s2) \<Rightarrow> (Inl e, s2)
      | (Inr github_cfg, s2) \<Rightarrow>
     (case GitHubRepositoryHelper w repo_owner repo_name github_cfg s2 of
        (Inl e, s3) \<Rightarrow> (Inl e, s3)
      | (Inr repo, s3) \<Rightarrow>
     (case release_from_tag w repo version_file_contents s3 of
        (Inl e, s4) \<Rightarrow> (Inl e, s4)
      | (Inr gh_release, s4) \<Rightarrow> (Inr (gh_release, output_dir), s4)))))))))"

text \<open>Lines 33 and 34: the artifact files, enumerated once.\<close>

definition output_files_of :: "string \<Rightarrow> state \<Rightarrow> path list \<times> state" where
  "output_files_of output_dir s = glob_paths (resolve (fs s) output_dir) ''*.gz'' s"

text \<open>The whole script.\<close>

definition update_release :: "world \<Rightarrow> state \<Rightarrow> (exn + unit) \<times> state" where
  "update_release w s =
     (case gh_release_of w s of
        (Inl e, s') \<Rightarrow> (Inl e, s')
      | (Inr (gh_release, output_dir), s') \<Rightarrow>
          (case output_files_of output_dir s' of
             (output_files, s'') \<Rightarrow> attach_files w gh_release output_files s''))"

text \<open>An uncaught exception ends the process with status 1, a normal end with 0.\<close>

definition exit_code :: "exn + unit \<Rightarrow> nat" where
  "exit_code r = (case r of Inl e \<Rightarrow> 1 | Inr u \<Rightarrow> 0)"

subsection \<open>Reading the trace\<close>

text \<open>
  The names passed to the upload calls of a trace, the handles passed to them, and the
  paths opened, each in the order of the calls.
\<close>

fun upload_names :: "event list \<Rightarrow> string list" where
  "upload_names [] = []"
| "upload_names (UploadAsset rel ctype nm h # evs) = nm # upload_names evs"
| "upload_names (ev # evs) = upload_names evs"

fun upload_handles :: "event list \<Rightarrow> file_handle list" where
  "upload_handles [] = []"
| "upload_handles (UploadAsset rel ctype nm h # evs) = h # upload_handles evs"
| "upload_handles (ev # evs) = upload_handles evs"

fun opened_paths :: "event list \<Rightarrow> path list" where
  "opened_paths [] = []"
| "opened_paths (OpenRb p # evs) = p # opened_paths evs"
| "opened_paths (ev # evs) = opened_paths evs"

text \<open>The calls a run has added to the trace of its initial state.\<close>

definition new_events :: "state \<Rightarrow> state \<Rightarrow> event list" where
  "new_events s s' = drop (length (trace s)) (trace s')"

text \<open>
  The calls of one pass through the loop body for the file \<open>f\<close>, as they follow from
  \<open>attach_file\<close>: the print, the open and, when the open succeeds, the upload call.
  The proofs describe the trace of the loop as a sequence of such blocks.
\<close>

definition file_events :: "filesystem \<Rightarrow> release \<Rightarrow> path \<Rightarrow> event list" where
  "file_events fsys rel f =
     Print (attaching_line f) # OpenRb f #
     (case files fsys f of
        None \<Rightarrow> []
      | Some d \<Rightarrow> [UploadAsset rel ''application/gzip'' (path_name f)
                     \<lparr>handle_path = f, handle_data = d\<rparr>])"

subsection \<open>Example runs\<close>

text \<open>
  The example of the specification: the version file holds \<^verbatim>\<open>v1.2.3\<close>, the output
  directory holds \<^verbatim>\<open>a.tar.gz\<close>, \<^verbatim>\<open>b.gz\<close> and \<^verbatim>\<open>c.txt\<close>, the release with tag
  \<^verbatim>\<open>v1.2.3\<close> exists and every upload succeeds. The hosting side knows no repository
  with an empty owner or an empty name.
\<close>

definition ex_fs :: filesystem where
  "ex_fs =
     \<lparr>resolve = (\<lambda>d. if d = ''/repo'' then [''repo''] else if d = ''/out'' then [''out''] else []),
      dirs = [[''out''] \<mapsto> [''a.tar.gz'', ''b.gz'', ''c.txt'']],
      files = [[''repo'', ''VERSION''] \<mapsto> ''v1.2.3'',
               [''out'', ''a.tar.gz''] \<mapsto> ''A'',
               [''out'', ''b.gz''] \<mapsto> ''B'',
               [''out'', ''c.txt''] \<mapsto> ''C'']\<rparr>"

definition ex_world :: world where
  "ex_world =
     \<lparr>environ = [''SOURCE_GITHUB_REPO_OWNER_AND_NAME'' \<mapsto> ''gardener/component-cli'',
                 ''MAIN_REPO_DIR'' \<mapsto> ''/repo'',
                 ''OUT_PATH'' \<mapsto> ''/out''],
      cfg_github = (\<lambda>n. if n = ''github_com'' then Inr 1 else Inl (CfgError n)),
      repository_helper =
        (\<lambda>owner nm cfg. if owner = [] \<or> nm = [] then Inl (GitHubError ''Not Found'') else Inr 2),
      api_release_from_tag = (\<lambda>repo tag. if tag = ''v1.2.3'' then Inr 3 else Inl NotFoundError),
      api_upload_asset = (\<lambda>attached rel a. None)\<rparr>"

definition ex_state :: state where
  "ex_state = \<lparr>fs = ex_fs, trace = [], assets = [], open_handles = []\<rparr>"



text \<open>The example on a hosting side that has no release for any tag.\<close>

definition without_release :: world where
  "without_release = ex_world\<lparr>api_release_from_tag := (\<lambda>repo tag. Inl NotFoundError)\<rparr>"

text \<open>The example with an output directory in which no name ends in \<^verbatim>\<open>.gz\<close>.\<close>

definition without_gz :: state where
  "without_gz = ex_state\<lparr>fs := ex_fs\<lparr>dirs := [[''out''] \<mapsto> [''c.txt'', ''gz'', ''x.gz.sig'']]\<rparr>\<rparr>"

text \<open>
  Five matching files, on a hosting side that refuses the upload of \<^verbatim>\<open>b.gz\<close>, the
  third of them.
\<close>

definition upload_of_b_fails :: world where
  "upload_of_b_fails =
     ex_world\<lparr>api_upload_asset :=
       (\<lambda>attached rel a. if asset_name a = ''b.gz'' then Some (GitHubError ''upload failed'') else None)\<rparr>"

definition five_gz :: state where
  "five_gz = ex_state\<lparr>fs := ex_fs\<lparr>
     dirs := [[''out''] \<mapsto> [''a.tar.gz'', ''x.gz'', ''b.gz'', ''y.gz'', ''z.gz'']],
     files := [[''repo'', ''VERSION''] \<mapsto> ''v1.2.3'',
               [''out'', ''a.tar.gz''] \<mapsto> ''A'', [''out'', ''x.gz''] \<mapsto> ''X'',
               [''out'', ''b.gz''] \<mapsto> ''B'', [''out'', ''y.gz''] \<mapsto> ''Y'',
               [''out'', ''z.gz''] \<mapsto> ''Z'']\<rparr>\<rparr>"

section \<open>Facts about the library calls\<close>

subsection \<open>Splitting at a separator\<close>






lemma unpack2_Inr: "unpack2 parts = Inr (a, b) \<longleftrightarrow> parts = [a, b]"
  by (auto simp: unpack2_def split: list.splits)




subsection \<open>Glob patterns\<close>

lemma glob_literal: "CHR ''*'' \<notin> set ps \<Longrightarrow> CHR ''?'' \<notin> set ps \<Longrightarrow> glob_match ps cs = (cs = ps)"
  by (induction ps cs rule: glob_match.induct) auto

lemma glob_star: "glob_match (CHR ''*'' # ps) cs = (\<exists>k \<le> length cs. glob_match ps (drop k cs))"
proof (induction cs)
  case Nil
  then show ?case by simp
next
  case (Cons c cs)
  have "(\<exists>k \<le> length (c # cs). glob_match ps (drop k (c # cs))) =
        (glob_match ps (c # cs) \<or> (\<exists>k \<le> length cs. glob_match ps (drop k cs)))"
  proof
    assume "\<exists>k \<le> length (c # cs). glob_match ps (drop k (c # cs))"
    then obtain k where k: "k \<le> length (c # cs)" "glob_match ps (drop k (c # cs))" by blast
    show "glob_match ps (c # cs) \<or> (\<exists>k \<le> length cs. glob_match ps (drop k cs))"
    proof (cases k)
      case 0
      with k show ?thesis by simp
    next
      case (Suc j)
      with k have "j \<le> length cs \<and> glob_match ps (drop j cs)" by simp
      then show ?thesis by blast
    qed
  next
    assume "glob_match ps (c # cs) \<or> (\<exists>k \<le> length cs. glob_match ps (drop k cs))"
    then show "\<exists>k \<le> length (c # cs). glob_match ps (drop k (c # cs))"
    proof
      assume "glob_match ps (c # cs)"
      then have "0 \<le> length (c # cs) \<and> glob_match ps (drop 0 (c # cs))" by simp
      then show ?thesis by blast
    next
      assume "\<exists>k \<le> length cs. glob_match ps (drop k cs)"
      then obtain k where "k \<le> length cs" "glob_match ps (drop k cs)" by blast
      then have "Suc k \<le> length (c # cs) \<and> glob_match ps (drop (Suc k) (c # cs))" by simp
      then show ?thesis by blast
    qed
  qed
  with Cons show ?case by simp
qed

lemma glob_gz: "glob_match ''*.gz'' n = suffix ''.gz'' n"
proof -
  have "glob_match ''*.gz'' n = (\<exists>k \<le> length n. drop k n = ''.gz'')"
    by (simp only: glob_star) (simp add: glob_literal)
  also have "\<dots> = suffix ''.gz'' n"
  proof
    assume "\<exists>k \<le> length n. drop k n = ''.gz''"
    then obtain k where "drop k n = ''.gz''" by blast
    then have "n = take k n @ ''.gz''" by (metis append_take_drop_id)
    then show "suffix ''.gz'' n" unfolding suffix_def by blast
  next
    assume "suffix ''.gz'' n"
    then obtain zs where "n = zs @ ''.gz''" unfolding suffix_def by blast
    then have "length zs \<le> length n \<and> drop (length zs) n = ''.gz''" by simp
    then show "\<exists>k \<le> length n. drop k n = ''.gz''" by blast
  qed
  finally show ?thesis .
qed

subsection \<open>Paths and progress lines\<close>

lemma path_name_child: "path_name (p @ [n]) = n"
  by (simp add: path_name_def)

lemma attaching_line_child_inj:
  "attaching_line (p @ [n]) = attaching_line (p @ [m]) \<Longrightarrow> n = m"
  by (simp add: attaching_line_def path_str_def)

lemma distinct_attaching_lines:
  assumes "distinct ns"
  shows "distinct (map attaching_line (map (\<lambda>n. p @ [n]) ns))"
proof -
  have "inj_on (\<lambda>n. attaching_line (p @ [n])) (set ns)"
    by (rule inj_onI) (rule attaching_line_child_inj)
  with assms show ?thesis
    by (simp add: distinct_map comp_def)
qed

subsection \<open>Lists of events\<close>

lemma upload_names_append: "upload_names (xs @ ys) = upload_names xs @ upload_names ys"
  by (induction xs rule: upload_names.induct) simp_all

lemma opened_paths_append: "opened_paths (xs @ ys) = opened_paths xs @ opened_paths ys"
  by (induction xs rule: opened_paths.induct) simp_all


lemma upload_handles_mem: "UploadAsset rel ctype anm h \<in> set tr \<Longrightarrow> upload_handles tr \<noteq> []"
  by (induction tr rule: upload_handles.induct) auto

lemma split_after_prefix:
  "xs @ ys = pre @ u # post \<Longrightarrow> u \<notin> set xs \<Longrightarrow> \<exists>pre'. pre = xs @ pre' \<and> ys = pre' @ u # post"
proof (induction xs arbitrary: pre)
  case Nil
  then show ?case by simp
next
  case (Cons x xs)
  then show ?case by (cases pre) auto
qed

section \<open>Facts about the steps of the script\<close>

subsection \<open>The events of one file\<close>



lemma upload_in_blocks_release:
  "UploadAsset rel' ctype nm h \<in> set (concat (map (file_events fsys rel) fl)) \<Longrightarrow> rel' = rel"
  by (induction fl) (auto simp: file_events_def split: option.splits)

lemma upload_names_file_events:
  "upload_names (file_events fsys rel f) =
     (case files fsys f of None \<Rightarrow> [] | Some d \<Rightarrow> [path_name f])"
  by (simp add: file_events_def split: option.splits)

lemma opened_paths_file_events: "opened_paths (file_events fsys rel f) = [f]"
  by (simp add: file_events_def split: option.splits)

lemma opened_paths_blocks: "opened_paths (concat (map (file_events fsys rel) xs)) = xs"
  by (induction xs) (simp_all add: opened_paths_append opened_paths_file_events)

lemma upload_names_blocks:
  "\<forall>f \<in> set xs. files fsys f \<noteq> None \<Longrightarrow>
   upload_names (concat (map (file_events fsys rel) xs)) = map path_name xs"
  by (induction xs) (auto simp: upload_names_append upload_names_file_events)

lemma upload_names_blocks_prefix:
  "\<forall>f \<in> set (butlast xs). files fsys f \<noteq> None \<Longrightarrow>
   prefix (upload_names (concat (map (file_events fsys rel) xs))) (map path_name xs)"
proof (induction xs)
  case Nil
  then show ?case by simp
next
  case (Cons x xs)
  show ?case
  proof (cases "xs = []")
    case True
    then show ?thesis
      by (simp add: upload_names_file_events split: option.splits)
  next
    case False
    with Cons.prems have "files fsys x \<noteq> None" and "\<forall>f \<in> set (butlast xs). files fsys f \<noteq> None"
      by simp_all
    with Cons.IH show ?thesis
      by (auto simp: upload_names_append upload_names_file_events)
  qed
qed

lemma upload_in_file_events:
  "file_events fsys rel f = pre @ UploadAsset rel' ctype anm h # post \<Longrightarrow>
   pre = [Print (attaching_line f), OpenRb f] \<and> post = [] \<and> rel' = rel
   \<and> ctype = ''application/gzip'' \<and> anm = path_name f
   \<and> handle_path h = f \<and> files fsys f = Some (handle_data h)"
  by (cases pre; cases "tl pre"; cases "tl (tl pre)")
     (auto simp: file_events_def split: option.splits)

lemma upload_in_blocks:
  "concat (map (file_events fsys rel) fl) = pre @ UploadAsset rel' ctype anm h # post \<Longrightarrow>
   \<exists>fl1 f fl2. fl = fl1 @ f # fl2
     \<and> pre = concat (map (file_events fsys rel) fl1) @ [Print (attaching_line f), OpenRb f]
     \<and> post = concat (map (file_events fsys rel) fl2)
     \<and> rel' = rel \<and> ctype = ''application/gzip'' \<and> anm = path_name f
     \<and> handle_path h = f \<and> files fsys f = Some (handle_data h)"
proof (induction fl arbitrary: pre)
  case Nil
  then show ?case by simp
next
  case (Cons g fl)
  let ?U = "UploadAsset rel' ctype anm h"
  from Cons.prems have eq: "file_events fsys rel g @ concat (map (file_events fsys rel) fl) = pre @ ?U # post"
    by simp
  then obtain us where
    us: "(file_events fsys rel g = pre @ us \<and> us @ concat (map (file_events fsys rel) fl) = ?U # post)
       \<or> (file_events fsys rel g @ us = pre \<and> concat (map (file_events fsys rel) fl) = us @ ?U # post)"
    by (auto simp: append_eq_append_conv2)
  then show ?case
  proof
    assume a: "file_events fsys rel g = pre @ us \<and> us @ concat (map (file_events fsys rel) fl) = ?U # post"
    show ?thesis
    proof (cases us)
      case Nil
      with a have "concat (map (file_events fsys rel) fl) = [] @ ?U # post"
        and p: "pre = file_events fsys rel g" by simp_all
      from Cons.IH [OF this(1)] obtain fl1 f fl2 where
        r: "fl = fl1 @ f # fl2"
          "[] = concat (map (file_events fsys rel) fl1) @ [Print (attaching_line f), OpenRb f]"
        by blast
      from r(2) show ?thesis by simp
    next
      case (Cons u us')
      with a have "u = ?U" and post: "post = us' @ concat (map (file_events fsys rel) fl)" by simp_all
      with a Cons have fe: "file_events fsys rel g = pre @ ?U # us'" by simp
      from upload_in_file_events [OF fe] post
      have "g # fl = [] @ g # fl
        \<and> pre = concat (map (file_events fsys rel) []) @ [Print (attaching_line g), OpenRb g]
        \<and> post = concat (map (file_events fsys rel) fl)
        \<and> rel' = rel \<and> ctype = ''application/gzip'' \<and> anm = path_name g
        \<and> handle_path h = g \<and> files fsys g = Some (handle_data h)"
        by simp
      then show ?thesis by blast
    qed
  next
    assume a: "file_events fsys rel g @ us = pre \<and> concat (map (file_events fsys rel) fl) = us @ ?U # post"
    then have "concat (map (file_events fsys rel) fl) = us @ ?U # post" by simp
    from Cons.IH [OF this] obtain fl1 f fl2 where
      r: "fl = fl1 @ f # fl2"
         "us = concat (map (file_events fsys rel) fl1) @ [Print (attaching_line f), OpenRb f]"
         "post = concat (map (file_events fsys rel) fl2)"
         "rel' = rel" "ctype = ''application/gzip''" "anm = path_name f"
         "handle_path h = f" "files fsys f = Some (handle_data h)"
      by blast
    from a r have "g # fl = (g # fl1) @ f # fl2
        \<and> pre = concat (map (file_events fsys rel) (g # fl1)) @ [Print (attaching_line f), OpenRb f]
        \<and> post = concat (map (file_events fsys rel) fl2)
        \<and> rel' = rel \<and> ctype = ''application/gzip'' \<and> anm = path_name f
        \<and> handle_path h = f \<and> files fsys f = Some (handle_data h)"
      by auto
    then show ?thesis by blast
  qed
qed

lemma count_print_file_events:
  "count_list (file_events fsys rel g) (Print l) = (if attaching_line g = l then 1 else 0)"
  by (simp add: file_events_def split: option.splits)

lemma count_print_blocks:
  "count_list (concat (map (file_events fsys rel) fl)) (Print l) =
   count_list (map attaching_line fl) l"
  by (induction fl) (simp_all add: count_print_file_events)

subsection \<open>The loop body and the loop\<close>

lemma attach_file_eq:
  "attach_file w rel f s =
     (case files (fs s) f of
        None \<Rightarrow> (Inl (OSError f), s\<lparr>trace := trace s @ [Print (attaching_line f), OpenRb f]\<rparr>)
      | Some d \<Rightarrow>
          (case api_upload_asset w (assets s) rel
                  \<lparr>asset_content_type = ''application/gzip'', asset_name = path_name f, asset_data = d\<rparr> of
             Some e \<Rightarrow>
               (Inl e, s\<lparr>trace := trace s @ [Print (attaching_line f), OpenRb f,
                           UploadAsset rel ''application/gzip'' (path_name f) \<lparr>handle_path = f, handle_data = d\<rparr>],
                         open_handles := open_handles s @ [f]\<rparr>)
           | None \<Rightarrow>
               (Inr (), s\<lparr>trace := trace s @ [Print (attaching_line f), OpenRb f,
                           UploadAsset rel ''application/gzip'' (path_name f) \<lparr>handle_path = f, handle_data = d\<rparr>],
                         open_handles := open_handles s @ [f],
                         assets := assets s @ [(rel, \<lparr>asset_content_type = ''application/gzip'', asset_name = path_name f, asset_data = d\<rparr>)]\<rparr>)))"
  by (simp add: attach_file_def open_rb_def upload_asset_def emit_def Let_def split: option.splits)

lemma fs_attach_file: "fs (snd (attach_file w rel f s)) = fs s"
  by (simp add: attach_file_eq split: option.splits)

lemma fs_attach_files: "fs (snd (attach_files w rel fl s)) = fs s"
proof (induction fl arbitrary: s)
  case Nil
  show ?case by simp
next
  case (Cons f fl)
  show ?case
  proof (cases "attach_file w rel f s")
    case (Pair r s')
    with fs_attach_file [of w rel f s] have "fs s' = fs s" by simp
    with Pair Cons [of s'] show ?thesis by (cases r) simp_all
  qed
qed

lemma trace_attach_file:
  "trace (snd (attach_file w rel f s)) = trace s @ file_events (fs s) rel f"
  by (simp add: attach_file_eq file_events_def split: option.splits)

lemma attach_file_Inr:
  "fst (attach_file w rel f s) = Inr u \<Longrightarrow> files (fs s) f \<noteq> None"
  by (auto simp add: attach_file_eq split: option.splits)

lemma trace_attach_files:
  "\<exists>k \<le> length fl.
      trace (snd (attach_files w rel fl s)) = trace s @ concat (map (file_events (fs s) rel) (take k fl))
    \<and> (\<forall>f \<in> set (take (k - 1) fl). files (fs s) f \<noteq> None)
    \<and> (\<forall>u. fst (attach_files w rel fl s) = Inr u \<longrightarrow> k = length fl \<and> (\<forall>f \<in> set fl. files (fs s) f \<noteq> None))"
proof (induction fl arbitrary: s)
  case Nil
  show ?case by simp
next
  case (Cons f fl)
  obtain r s' where step: "attach_file w rel f s = (r, s')" by (cases "attach_file w rel f s")
  from step trace_attach_file [of w rel f s]
  have tr: "trace s' = trace s @ file_events (fs s) rel f" by simp
  from step fs_attach_file [of w rel f s] have fs: "fs s' = fs s" by simp
  show ?case
  proof (cases r)
    case (Inl e)
    with step tr have "trace (snd (attach_files w rel (f # fl) s)) =
           trace s @ concat (map (file_events (fs s) rel) (take 1 (f # fl)))"
      by simp
    moreover from Inl step have "\<forall>u. fst (attach_files w rel (f # fl) s) \<noteq> Inr u" by simp
    ultimately show ?thesis
      by (intro exI [of _ 1]) simp
  next
    case (Inr u)
    with step attach_file_Inr [of w rel f s u] have rd: "files (fs s) f \<noteq> None" by simp
    from Cons [of s'] obtain k where k: "k \<le> length fl"
      "trace (snd (attach_files w rel fl s')) = trace s' @ concat (map (file_events (fs s') rel) (take k fl))"
      "\<forall>f \<in> set (take (k - 1) fl). files (fs s') f \<noteq> None"
      "\<forall>u. fst (attach_files w rel fl s') = Inr u \<longrightarrow> k = length fl \<and> (\<forall>f \<in> set fl. files (fs s') f \<noteq> None)"
      by blast
    have eq: "attach_files w rel (f # fl) s = attach_files w rel fl s'"
      using step Inr by simp
    have a: "trace (snd (attach_files w rel (f # fl) s)) =
          trace s @ concat (map (file_events (fs s) rel) (take (Suc k) (f # fl)))"
      using eq k(2) tr fs by simp
    have b: "\<forall>g \<in> set (take (Suc k - 1) (f # fl)). files (fs s) g \<noteq> None"
    proof (cases k)
      case 0
      then show ?thesis by simp
    next
      case (Suc j)
      with k(3) rd fs show ?thesis by auto
    qed
    have c: "\<forall>u. fst (attach_files w rel (f # fl) s) = Inr u \<longrightarrow>
               Suc k = length (f # fl) \<and> (\<forall>g \<in> set (f # fl). files (fs s) g \<noteq> None)"
      using eq k(4) rd fs by auto
    have d: "Suc k \<le> length (f # fl)" using k(1) by simp
    from d a b c show ?thesis
      by (intro exI [of _ "Suc k"]) blast
  qed
qed

lemma attach_files_append:
  "attach_files w rel (xs @ ys) s =
     (case attach_files w rel xs s of
        (Inl e, s') \<Rightarrow> (Inl e, s')
      | (Inr u, s') \<Rightarrow> attach_files w rel ys s')"
  by (induction xs arbitrary: s) (auto split: prod.splits sum.splits)

lemma attach_file_Inr_state:
  assumes "attach_file w rel f s = (Inr u, s')"
  shows "\<exists>d. files (fs s) f = Some d
      \<and> s' = s\<lparr>trace := trace s @ [Print (attaching_line f), OpenRb f,
                    UploadAsset rel ''application/gzip'' (path_name f) \<lparr>handle_path = f, handle_data = d\<rparr>],
                 open_handles := open_handles s @ [f],
                 assets := assets s @ [(rel, \<lparr>asset_content_type = ''application/gzip'',
                                              asset_name = path_name f, asset_data = d\<rparr>)]\<rparr>"
  using assms by (auto simp: attach_file_eq split: option.splits)

lemma attach_files_Inr_state:
  assumes "attach_files w rel fl s = (Inr u, s')"
  shows "fs s' = fs s
      \<and> assets s' = assets s @ map (\<lambda>p. (rel, \<lparr>asset_content_type = ''application/gzip'',
                                   asset_name = path_name p, asset_data = the (files (fs s) p)\<rparr>)) fl
      \<and> open_handles s' = open_handles s @ fl
      \<and> (\<exists>tr. trace s' = trace s @ tr \<and> upload_names tr = map path_name fl \<and> opened_paths tr = fl)"
  using assms
proof (induction fl arbitrary: s)
  case Nil
  then show ?case by simp
next
  case (Cons f fl)
  obtain r s1 where step: "attach_file w rel f s = (r, s1)" by (cases "attach_file w rel f s")
  with Cons.prems obtain u1 where r: "r = Inr u1" by (cases r) auto
  with step Cons.prems have rest: "attach_files w rel fl s1 = (Inr u, s')" by simp
  from attach_file_Inr_state [of w rel f s u1 s1] step r obtain d where
    d: "files (fs s) f = Some d" and
    s1: "s1 = s\<lparr>trace := trace s @ [Print (attaching_line f), OpenRb f,
                    UploadAsset rel ''application/gzip'' (path_name f) \<lparr>handle_path = f, handle_data = d\<rparr>],
                 open_handles := open_handles s @ [f],
                 assets := assets s @ [(rel, \<lparr>asset_content_type = ''application/gzip'',
                                              asset_name = path_name f, asset_data = d\<rparr>)]\<rparr>"
    by auto
  from Cons.IH [OF rest] obtain tr where
    ih: "fs s' = fs s1"
      "assets s' = assets s1 @ map (\<lambda>p. (rel, \<lparr>asset_content_type = ''application/gzip'',
                                   asset_name = path_name p, asset_data = the (files (fs s1) p)\<rparr>)) fl"
      "open_handles s' = open_handles s1 @ fl"
      "trace s' = trace s1 @ tr" "upload_names tr = map path_name fl" "opened_paths tr = fl"
    by blast
  from s1 have fs1: "fs s1 = fs s" by simp
  let ?tr = "[Print (attaching_line f), OpenRb f,
              UploadAsset rel ''application/gzip'' (path_name f) \<lparr>handle_path = f, handle_data = d\<rparr>] @ tr"
  have "trace s' = trace s @ ?tr \<and> upload_names ?tr = map path_name (f # fl) \<and> opened_paths ?tr = f # fl"
    using ih(4-6) s1 by simp
  then have ex: "\<exists>tr. trace s' = trace s @ tr \<and> upload_names tr = map path_name (f # fl) \<and> opened_paths tr = f # fl"
    by blast
  from ih(1-3) s1 d fs1 ex show ?case by simp
qed


subsection \<open>Up to the release lookup\<close>

lemma fs_gh_release_of: "fs (snd (gh_release_of w s)) = fs s"
  by (simp add: gh_release_of_def read_text_def github_def GitHubRepositoryHelper_def
      release_from_tag_def emit_def split: sum.splits prod.splits)

lemma gh_release_of_reaches_lookup:
  assumes "environ w ''SOURCE_GITHUB_REPO_OWNER_AND_NAME'' = Some r"
      and "environ w ''MAIN_REPO_DIR'' = Some d"
      and "environ w ''OUT_PATH'' = Some out"
      and "split_str CHR ''/'' r = [owner, nm]"
      and "files (fs s) (resolve (fs s) d @ [''VERSION'']) = Some t"
      and "cfg_github w ''github_com'' = Inr cfg"
      and "repository_helper w owner nm cfg = Inr repo"
  shows "gh_release_of w s =
           ((case api_release_from_tag w repo t of Inl e \<Rightarrow> Inl e | Inr rel \<Rightarrow> Inr (rel, out)),
            s\<lparr>trace := trace s @ [ReadText (resolve (fs s) d @ [''VERSION'']), CfgGithub ''github_com'',
                                   NewRepositoryHelper owner nm cfg, ReleaseFromTag repo t]\<rparr>)"
  using assms
  by (simp add: gh_release_of_def check_env_def unpack2_def read_text_def github_def
      GitHubRepositoryHelper_def release_from_tag_def emit_def VERSION_FILE_NAME_def
      split: sum.splits)



lemma gh_release_of_InrD:
  assumes "gh_release_of w s = (Inr (rel, out), s1)"
  shows "\<exists>r d owner nm t cfg repo.
           environ w ''SOURCE_GITHUB_REPO_OWNER_AND_NAME'' = Some r
         \<and> environ w ''MAIN_REPO_DIR'' = Some d
         \<and> environ w ''OUT_PATH'' = Some out
         \<and> split_str CHR ''/'' r = [owner, nm]
         \<and> files (fs s) (resolve (fs s) d @ [''VERSION'']) = Some t
         \<and> cfg_github w ''github_com'' = Inr cfg
         \<and> repository_helper w owner nm cfg = Inr repo
         \<and> api_release_from_tag w repo t = Inr rel
         \<and> s1 = s\<lparr>trace := trace s @ [ReadText (resolve (fs s) d @ [''VERSION'']), CfgGithub ''github_com'',
                                   NewRepositoryHelper owner nm cfg, ReleaseFromTag repo t]\<rparr>"
  using assms
  by (auto simp add: gh_release_of_def check_env_def unpack2_Inr read_text_def github_def
      GitHubRepositoryHelper_def release_from_tag_def emit_def VERSION_FILE_NAME_def
      split: sum.splits option.splits prod.splits)

lemma gh_release_of_no_uploads:
  "\<exists>tr. trace (snd (gh_release_of w s)) = trace s @ tr
       \<and> upload_names tr = [] \<and> opened_paths tr = []"
  by (simp add: gh_release_of_def check_env_def read_text_def github_def
      GitHubRepositoryHelper_def release_from_tag_def emit_def
      split: sum.splits option.splits prod.splits)

lemma gh_release_of_no_handles:
  "\<exists>tr. trace (snd (gh_release_of w s)) = trace s @ tr
       \<and> upload_handles tr = [] \<and> (\<forall>l. Print l \<notin> set tr)
       \<and> open_handles (snd (gh_release_of w s)) = open_handles s"
  by (simp add: gh_release_of_def check_env_def read_text_def github_def
      GitHubRepositoryHelper_def release_from_tag_def emit_def
      split: sum.splits option.splits prod.splits)

subsection \<open>The whole script\<close>

lemma update_release_Inl:
  "gh_release_of w s = (Inl e, s') \<Longrightarrow> update_release w s = (Inl e, s')"
  by (simp add: update_release_def)

lemma update_release_Inr:
  "gh_release_of w s = (Inr (rel, out), s') \<Longrightarrow>
   update_release w s =
     attach_files w rel (fst (output_files_of out s')) (emit (Glob (resolve (fs s') out) ''*.gz'') s')"
  by (simp add: update_release_def output_files_of_def glob_paths_def)

lemma fs_update_release: "fs (snd (update_release w s)) = fs s"
proof (cases "gh_release_of w s")
  case (Pair r s')
  with fs_gh_release_of [of w s] have eq: "fs s' = fs s" by simp
  show ?thesis
  proof (cases r)
    case (Inl e)
    with Pair eq show ?thesis by (simp add: update_release_Inl)
  next
    case (Inr ro)
    obtain rel out where ro: "ro = (rel, out)" by (cases ro)
    with Pair Inr eq show ?thesis
      by (simp add: update_release_Inr fs_attach_files emit_def)
  qed
qed


lemma output_files_gz:
  "fst (output_files_of out s) =
     (case dirs (fs s) (resolve (fs s) out) of
        None \<Rightarrow> []
      | Some names \<Rightarrow> map (\<lambda>n. resolve (fs s) out @ [n]) (filter (suffix ''.gz'') names))"
proof -
  have "glob_match ''*.gz'' = suffix ''.gz''"
    by (rule ext) (rule glob_gz)
  then show ?thesis
    by (simp add: output_files_of_def glob_paths_def split: option.splits)
qed

lemma update_release_after_lookup:
  assumes "gh_release_of w s = (Inr (rel, out), s1)"
  shows "\<exists>k \<le> length (fst (output_files_of out s1)).
           trace (snd (update_release w s)) =
             trace s1 @ Glob (resolve (fs s) out) ''*.gz'' #
               concat (map (file_events (fs s) rel) (take k (fst (output_files_of out s1))))
         \<and> (\<forall>f \<in> set (take (k - 1) (fst (output_files_of out s1))). files (fs s) f \<noteq> None)
         \<and> (\<forall>u. fst (update_release w s) = Inr u \<longrightarrow>
               k = length (fst (output_files_of out s1))
               \<and> (\<forall>f \<in> set (fst (output_files_of out s1)). files (fs s) f \<noteq> None))"
proof -
  from assms fs_gh_release_of [of w s] have fs: "fs s1 = fs s" by simp
  from trace_attach_files [of "fst (output_files_of out s1)" w rel "emit (Glob (resolve (fs s1) out) ''*.gz'') s1"]
  show ?thesis
    by (simp add: update_release_Inr [OF assms] fs) (simp add: emit_def fs)
qed


lemma upload_in_run:
  assumes "new_events s (snd (update_release w s)) = pre @ UploadAsset rel' ctype anm h # post"
  shows "\<exists>out s1 tr0 k fl1 f fl2.
           gh_release_of w s = (Inr (rel', out), s1)
         \<and> trace s1 = trace s @ tr0 \<and> (\<forall>l. Print l \<notin> set tr0)
         \<and> take k (fst (output_files_of out s1)) = fl1 @ f # fl2
         \<and> pre = tr0 @ Glob (resolve (fs s) out) ''*.gz'' #
                   concat (map (file_events (fs s) rel') fl1) @ [Print (attaching_line f), OpenRb f]
         \<and> post = concat (map (file_events (fs s) rel') fl2)
         \<and> ctype = ''application/gzip'' \<and> anm = path_name f
         \<and> handle_path h = f \<and> files (fs s) f = Some (handle_data h)"
proof -
  let ?U = "UploadAsset rel' ctype anm h"
  obtain res s1 where g: "gh_release_of w s = (res, s1)" by (cases "gh_release_of w s")
  from gh_release_of_no_handles [of w s] g obtain tr0 where
    tr0: "trace s1 = trace s @ tr0" "upload_handles tr0 = []" "\<forall>l. Print l \<notin> set tr0"
    by auto
  from tr0(2) have notin: "?U \<notin> set tr0" using upload_handles_mem by blast
  show ?thesis
  proof (cases res)
    case (Inl e)
    with g have "update_release w s = (Inl e, s1)" by (simp add: update_release_Inl)
    with tr0(1) have "new_events s (snd (update_release w s)) = tr0" by (simp add: new_events_def)
    with assms notin show ?thesis by simp
  next
    case (Inr ro)
    obtain rel out where ro: "ro = (rel, out)" by (cases ro)
    with g Inr have g': "gh_release_of w s = (Inr (rel, out), s1)" by simp
    let ?fl = "fst (output_files_of out s1)"
    from update_release_after_lookup [OF g'] obtain k where
      "trace (snd (update_release w s)) =
         trace s1 @ Glob (resolve (fs s) out) ''*.gz'' #
           concat (map (file_events (fs s) rel) (take k ?fl))"
      by blast
    with tr0(1) have "new_events s (snd (update_release w s)) =
        (tr0 @ [Glob (resolve (fs s) out) ''*.gz'']) @ concat (map (file_events (fs s) rel) (take k ?fl))"
      by (simp add: new_events_def)
    with assms have eq: "(tr0 @ [Glob (resolve (fs s) out) ''*.gz'']) @
        concat (map (file_events (fs s) rel) (take k ?fl)) = pre @ ?U # post"
      by simp
    from notin have "?U \<notin> set (tr0 @ [Glob (resolve (fs s) out) ''*.gz''])" by simp
    from split_after_prefix [OF eq this] obtain pre' where
      pre: "pre = (tr0 @ [Glob (resolve (fs s) out) ''*.gz'']) @ pre'" and
      blocks: "concat (map (file_events (fs s) rel) (take k ?fl)) = pre' @ ?U # post"
      by blast
    from upload_in_blocks [OF blocks] obtain fl1 f fl2 where
      r: "take k ?fl = fl1 @ f # fl2"
         "pre' = concat (map (file_events (fs s) rel) fl1) @ [Print (attaching_line f), OpenRb f]"
         "post = concat (map (file_events (fs s) rel) fl2)"
         "rel' = rel" "ctype = ''application/gzip''" "anm = path_name f"
         "handle_path h = f" "files (fs s) f = Some (handle_data h)"
      by blast
    from g' r pre tr0(1,3)
    have "gh_release_of w s = (Inr (rel', out), s1)
         \<and> trace s1 = trace s @ tr0 \<and> (\<forall>l. Print l \<notin> set tr0)
         \<and> take k (fst (output_files_of out s1)) = fl1 @ f # fl2
         \<and> pre = tr0 @ Glob (resolve (fs s) out) ''*.gz'' #
                   concat (map (file_events (fs s) rel') fl1) @ [Print (attaching_line f), OpenRb f]
         \<and> post = concat (map (file_events (fs s) rel') fl2)
         \<and> ctype = ''application/gzip'' \<and> anm = path_name f
         \<and> handle_path h = f \<and> files (fs s) f = Some (handle_data h)"
      by simp
    then show ?thesis by blast
  qed
qed

subsection \<open>The example runs\<close>




lemma ex_gh_release:
  "gh_release_of ex_world ex_state =
     (Inr (3, ''/out''),
      ex_state\<lparr>trace := [ReadText [''repo'', ''VERSION''], CfgGithub ''github_com'',
                          NewRepositoryHelper ''gardener'' ''component-cli'' 1,
                          ReleaseFromTag 2 ''v1.2.3'']\<rparr>)"
  by (simp add: gh_release_of_def read_text_def github_def GitHubRepositoryHelper_def
      release_from_tag_def check_env_def emit_def unpack2_def VERSION_FILE_NAME_def
      ex_world_def ex_state_def ex_fs_def)

lemma ex_out_dir:
  "dirs (fs ex_state) (resolve (fs ex_state) ''/out'') = Some [''a.tar.gz'', ''b.gz'', ''c.txt'']"
  by (simp add: ex_state_def ex_fs_def)

lemma ex_run:
  "update_release ex_world ex_state =
     (Inr (),
      ex_state\<lparr>trace :=
          [ReadText [''repo'', ''VERSION''], CfgGithub ''github_com'',
           NewRepositoryHelper ''gardener'' ''component-cli'' 1, ReleaseFromTag 2 ''v1.2.3'',
           Glob [''out''] ''*.gz'',
           Print ''Attaching file /out/a.tar.gz to the GitHub release'',
           OpenRb [''out'', ''a.tar.gz''],
           UploadAsset 3 ''application/gzip'' ''a.tar.gz''
             \<lparr>handle_path = [''out'', ''a.tar.gz''], handle_data = ''A''\<rparr>,
           Print ''Attaching file /out/b.gz to the GitHub release'',
           OpenRb [''out'', ''b.gz''],
           UploadAsset 3 ''application/gzip'' ''b.gz''
             \<lparr>handle_path = [''out'', ''b.gz''], handle_data = ''B''\<rparr>],
        open_handles := [[''out'', ''a.tar.gz''], [''out'', ''b.gz'']],
        assets :=
          [(3, \<lparr>asset_content_type = ''application/gzip'', asset_name = ''a.tar.gz'', asset_data = ''A''\<rparr>),
           (3, \<lparr>asset_content_type = ''application/gzip'', asset_name = ''b.gz'', asset_data = ''B''\<rparr>)]\<rparr>)"
  by (simp add: update_release_def gh_release_of_def output_files_of_def
      glob_paths_def read_text_def github_def GitHubRepositoryHelper_def release_from_tag_def
      check_env_def attach_file_eq emit_def unpack2_def VERSION_FILE_NAME_def
      attaching_line_def path_str_def path_name_def ex_world_def ex_state_def ex_fs_def)

lemma ex_new_events:
  "new_events ex_state (snd (update_release ex_world ex_state)) =
       [ReadText [''repo'', ''VERSION''], CfgGithub ''github_com'',
        NewRepositoryHelper ''gardener'' ''component-cli'' 1, ReleaseFromTag 2 ''v1.2.3'',
        Glob [''out''] ''*.gz'',
        Print ''Attaching file /out/a.tar.gz to the GitHub release'',
        OpenRb [''out'', ''a.tar.gz''],
        UploadAsset 3 ''application/gzip'' ''a.tar.gz''
          \<lparr>handle_path = [''out'', ''a.tar.gz''], handle_data = ''A''\<rparr>,
        Print ''Attaching file /out/b.gz to the GitHub release'',
        OpenRb [''out'', ''b.gz''],
        UploadAsset 3 ''application/gzip'' ''b.gz''
          \<lparr>handle_path = [''out'', ''b.gz''], handle_data = ''B''\<rparr>]"
proof -
  have "trace ex_state = []" by (simp add: ex_state_def)
  then show ?thesis by (simp add: ex_run new_events_def)
qed

section \<open>The claims\<close>

subsection \<open>C1\<close>

text \<open>
  C1: the files the loop works on are exactly the immediate children of the output
  directory whose names end in \<^verbatim>\<open>.gz\<close>, enumerated once by the glob, in scan
  order. In every run the files opened and the names uploaded are a prefix of that
  enumeration (so a file such as \<^verbatim>\<open>c.txt\<close> is never opened or uploaded), and in a
  run that completes they are the whole enumeration: each matching child is opened and
  uploaded, once, under its own name.
\<close>

theorem uploads_are_the_gz_children:
  assumes "gh_release_of w s = (Inr (rel, out), s1)"
      and "dirs (fs s) (resolve (fs s) out) = Some names"
  shows "fst (output_files_of out s1) =
           map (\<lambda>n. resolve (fs s) out @ [n]) (filter (suffix ''.gz'') names)
       \<and> prefix (opened_paths (new_events s (snd (update_release w s))))
                (map (\<lambda>n. resolve (fs s) out @ [n]) (filter (suffix ''.gz'') names))
       \<and> prefix (upload_names (new_events s (snd (update_release w s))))
                (filter (suffix ''.gz'') names)
       \<and> (fst (update_release w s) = Inr () \<longrightarrow>
            opened_paths (new_events s (snd (update_release w s))) =
              map (\<lambda>n. resolve (fs s) out @ [n]) (filter (suffix ''.gz'') names)
          \<and> upload_names (new_events s (snd (update_release w s))) =
              filter (suffix ''.gz'') names)"
proof -
  let ?gz = "filter (suffix ''.gz'') names"
  let ?fl = "map (\<lambda>n. resolve (fs s) out @ [n]) ?gz"
  from assms(1) fs_gh_release_of [of w s] have fs1: "fs s1 = fs s" by simp
  have fl: "fst (output_files_of out s1) = ?fl"
    by (simp add: output_files_gz fs1 assms(2))
  have names: "map path_name ?fl = ?gz"
    by (simp add: path_name_child comp_def)
  from gh_release_of_no_uploads [of w s] assms(1) obtain tr0 where
    tr0: "trace s1 = trace s @ tr0" "upload_names tr0 = []" "opened_paths tr0 = []"
    by auto
  from update_release_after_lookup [OF assms(1)] fl obtain k where
    k: "k \<le> length ?fl"
       "trace (snd (update_release w s)) =
          trace s1 @ Glob (resolve (fs s) out) ''*.gz'' #
            concat (map (file_events (fs s) rel) (take k ?fl))"
       "\<forall>f \<in> set (take (k - 1) ?fl). files (fs s) f \<noteq> None"
       "\<forall>u. fst (update_release w s) = Inr u \<longrightarrow>
               k = length ?fl \<and> (\<forall>f \<in> set ?fl. files (fs s) f \<noteq> None)"
    by auto
  let ?blocks = "concat (map (file_events (fs s) rel) (take k ?fl))"
  have new: "new_events s (snd (update_release w s)) =
      tr0 @ Glob (resolve (fs s) out) ''*.gz'' # ?blocks"
    using k(2) tr0(1) by (simp add: new_events_def)
  have op: "opened_paths (new_events s (snd (update_release w s))) = take k ?fl"
    unfolding new using tr0(3) by (simp add: opened_paths_append opened_paths_blocks)
  have up: "upload_names (new_events s (snd (update_release w s))) = upload_names ?blocks"
    unfolding new using tr0(2) by (simp add: upload_names_append)
  have p1: "prefix (opened_paths (new_events s (snd (update_release w s)))) ?fl"
    unfolding op by (rule take_is_prefix)
  have "butlast (take k ?fl) = take (k - 1) ?fl"
    using k(1) by (simp add: butlast_take)
  with k(3) have "\<forall>f \<in> set (butlast (take k ?fl)). files (fs s) f \<noteq> None" by simp
  then have "prefix (upload_names ?blocks) (map path_name (take k ?fl))"
    by (rule upload_names_blocks_prefix)
  moreover have "prefix (map path_name (take k ?fl)) (map path_name ?fl)"
    by (intro map_mono_prefix take_is_prefix)
  ultimately have "prefix (upload_names ?blocks) (map path_name ?fl)"
    by (rule prefix_order.trans)
  with up names have p2: "prefix (upload_names (new_events s (snd (update_release w s)))) ?gz"
    by simp
  have p3: "fst (update_release w s) = Inr () \<longrightarrow>
            opened_paths (new_events s (snd (update_release w s))) = ?fl
          \<and> upload_names (new_events s (snd (update_release w s))) = ?gz"
  proof
    assume "fst (update_release w s) = Inr ()"
    with k(4) have kl: "k = length ?fl" and rd: "\<forall>f \<in> set ?fl. files (fs s) f \<noteq> None"
      by blast+
    from kl have tk: "take k ?fl = ?fl" by simp
    from rd have "upload_names (concat (map (file_events (fs s) rel) ?fl)) = map path_name ?fl"
      by (rule upload_names_blocks)
    with up op tk names
    show "opened_paths (new_events s (snd (update_release w s))) = ?fl
          \<and> upload_names (new_events s (snd (update_release w s))) = ?gz"
      by simp
  qed
  from fl p1 p2 p3 show ?thesis by blast
qed

text \<open>
  The example of the specification: of \<^verbatim>\<open>a.tar.gz\<close>, \<^verbatim>\<open>b.gz\<close> and
  \<^verbatim>\<open>c.txt\<close> exactly the first two are opened and uploaded.
\<close>

theorem uploads_are_the_gz_children_witness:
  "dirs (fs ex_state) (resolve (fs ex_state) ''/out'') = Some [''a.tar.gz'', ''b.gz'', ''c.txt'']
   \<and> fst (update_release ex_world ex_state) = Inr ()
   \<and> opened_paths (new_events ex_state (snd (update_release ex_world ex_state))) =
       [[''out'', ''a.tar.gz''], [''out'', ''b.gz'']]
   \<and> upload_names (new_events ex_state (snd (update_release ex_world ex_state))) =
       [''a.tar.gz'', ''b.gz'']"
proof -
  have ok: "fst (update_release ex_world ex_state) = Inr ()"
    by (simp add: ex_run)
  have r: "resolve (fs ex_state) ''/out'' = [''out'']"
    by (simp add: ex_state_def ex_fs_def)
  note res = uploads_are_the_gz_children [OF ex_gh_release ex_out_dir]
  note c4 = res [THEN conjunct2, THEN conjunct2, THEN conjunct2, rule_format, OF ok]
  from c4 r have
    "opened_paths (new_events ex_state (snd (update_release ex_world ex_state))) =
       [[''out'', ''a.tar.gz''], [''out'', ''b.gz'']]"
    "upload_names (new_events ex_state (snd (update_release ex_world ex_state))) =
       [''a.tar.gz'', ''b.gz'']"
    by (simp_all add: suffix_def)
  with ex_out_dir ok show ?thesis by blast
qed

subsection \<open>C2\<close>



subsection \<open>C3\<close>

text \<open>
  C3: the loop stops at the first failing upload. When the script has resolved the
  release, the enumerated files are \<open>sent @ f # rest\<close>, the files of \<open>sent\<close> have been
  attached and the hosting side refuses the upload of \<open>f\<close> with \<open>e\<close>, then the run ends
  with \<open>e\<close> (exit code 1) right after the upload call for \<open>f\<close>: the files opened and
  the upload calls made are those of \<open>sent\<close> and \<open>f\<close> and none of \<open>rest\<close>, and the
  assets of \<open>sent\<close> are still attached (nothing is rolled back).
\<close>

theorem upload_failure_aborts:
  assumes "gh_release_of w s = (Inr (rel, out), s1)"
      and "fst (output_files_of out s1) = sent @ f # rest"
      and "attach_files w rel sent (snd (output_files_of out s1)) = (Inr (), s2)"
      and "files (fs s) f = Some d"
      and "api_upload_asset w (assets s2) rel
             \<lparr>asset_content_type = ''application/gzip'', asset_name = path_name f, asset_data = d\<rparr>
           = Some e"
  shows "update_release w s =
           (Inl e, s2\<lparr>trace := trace s2 @ [Print (attaching_line f), OpenRb f,
                          UploadAsset rel ''application/gzip'' (path_name f)
                            \<lparr>handle_path = f, handle_data = d\<rparr>],
                        open_handles := open_handles s2 @ [f]\<rparr>)
       \<and> exit_code (fst (update_release w s)) = 1
       \<and> upload_names (new_events s (snd (update_release w s))) = map path_name sent @ [path_name f]
       \<and> opened_paths (new_events s (snd (update_release w s))) = sent @ [f]
       \<and> assets (snd (update_release w s)) =
           assets s @ map (\<lambda>p. (rel, \<lparr>asset_content_type = ''application/gzip'',
                                   asset_name = path_name p, asset_data = the (files (fs s) p)\<rparr>)) sent"
proof -
  let ?g = "snd (output_files_of out s1)"
  let ?three = "[Print (attaching_line f), OpenRb f,
                 UploadAsset rel ''application/gzip'' (path_name f) \<lparr>handle_path = f, handle_data = d\<rparr>]"
  let ?final = "s2\<lparr>trace := trace s2 @ ?three, open_handles := open_handles s2 @ [f]\<rparr>"
  from assms(1) fs_gh_release_of [of w s] have fs1: "fs s1 = fs s" by simp
  have g: "?g = emit (Glob (resolve (fs s1) out) ''*.gz'') s1"
    by (simp add: output_files_of_def glob_paths_def)
  then have fsg: "fs ?g = fs s" and asg: "assets ?g = assets s1"
    and trg: "trace ?g = trace s1 @ [Glob (resolve (fs s1) out) ''*.gz'']"
    by (simp_all add: emit_def fs1)
  from attach_files_Inr_state [OF assms(3)] obtain tr where
    st: "fs s2 = fs ?g"
      "assets s2 = assets ?g @ map (\<lambda>p. (rel, \<lparr>asset_content_type = ''application/gzip'',
                                   asset_name = path_name p, asset_data = the (files (fs ?g) p)\<rparr>)) sent"
      "trace s2 = trace ?g @ tr" "upload_names tr = map path_name sent" "opened_paths tr = sent"
    by blast
  from st(1) fsg assms(4) have rd: "files (fs s2) f = Some d" by simp
  have one: "attach_file w rel f s2 = (Inl e, ?final)"
    using rd assms(5) by (simp add: attach_file_eq)
  have "attach_files w rel (sent @ f # rest) ?g = (Inl e, ?final)"
    using assms(3) one by (simp add: attach_files_append)
  with assms(2) have run: "update_release w s = (Inl e, ?final)"
    using update_release_Inr [OF assms(1)] g by simp
  from gh_release_of_no_uploads [of w s] assms(1) obtain tr0 where
    tr0: "trace s1 = trace s @ tr0" "upload_names tr0 = []" "opened_paths tr0 = []"
    by auto
  from gh_release_of_InrD [OF assms(1)] have as1: "assets s1 = assets s" by auto
  have new: "new_events s ?final = tr0 @ [Glob (resolve (fs s1) out) ''*.gz''] @ tr @ ?three"
    using st(3) trg tr0(1) by (simp add: new_events_def)
  have up: "upload_names (new_events s ?final) = map path_name sent @ [path_name f]"
    unfolding new using tr0(2) st(4) by (simp add: upload_names_append)
  have op: "opened_paths (new_events s ?final) = sent @ [f]"
    unfolding new using tr0(3) st(5) by (simp add: opened_paths_append)
  have as: "assets ?final =
           assets s @ map (\<lambda>p. (rel, \<lparr>asset_content_type = ''application/gzip'',
                                   asset_name = path_name p, asset_data = the (files (fs s) p)\<rparr>)) sent"
    using st(2) asg as1 fsg by simp
  from run up op as show ?thesis
    by (simp add: exit_code_def)
qed

text \<open>
  Five matching files, the upload of the third is refused: three upload calls, the
  first two assets stay attached, the last two files are never opened.
\<close>

theorem upload_failure_aborts_witness:
  "fst (output_files_of ''/out'' five_gz) =
     [[''out'', ''a.tar.gz''], [''out'', ''x.gz'']] @ [''out'', ''b.gz'']
       # [[''out'', ''y.gz''], [''out'', ''z.gz'']]
   \<and> fst (update_release upload_of_b_fails five_gz) = Inl (GitHubError ''upload failed'')
   \<and> exit_code (fst (update_release upload_of_b_fails five_gz)) = 1
   \<and> upload_names (new_events five_gz (snd (update_release upload_of_b_fails five_gz)))
       = [''a.tar.gz'', ''x.gz'', ''b.gz'']
   \<and> opened_paths (new_events five_gz (snd (update_release upload_of_b_fails five_gz)))
       = [[''out'', ''a.tar.gz''], [''out'', ''x.gz''], [''out'', ''b.gz'']]
   \<and> assets (snd (update_release upload_of_b_fails five_gz)) =
       [(3, \<lparr>asset_content_type = ''application/gzip'', asset_name = ''a.tar.gz'', asset_data = ''A''\<rparr>),
        (3, \<lparr>asset_content_type = ''application/gzip'', asset_name = ''x.gz'', asset_data = ''X''\<rparr>)]"
proof -
  let ?four = "[ReadText [''repo'', ''VERSION''], CfgGithub ''github_com'',
                NewRepositoryHelper ''gardener'' ''component-cli'' 1, ReleaseFromTag 2 ''v1.2.3'']"
  let ?s1 = "five_gz\<lparr>trace := ?four\<rparr>"
  let ?a = "\<lparr>asset_content_type = ''application/gzip'', asset_name = ''a.tar.gz'', asset_data = ''A''\<rparr>"
  let ?x = "\<lparr>asset_content_type = ''application/gzip'', asset_name = ''x.gz'', asset_data = ''X''\<rparr>"
  let ?s2 = "five_gz\<lparr>trace := ?four @
       [Glob [''out''] ''*.gz'',
        Print (attaching_line [''out'', ''a.tar.gz'']), OpenRb [''out'', ''a.tar.gz''],
        UploadAsset 3 ''application/gzip'' ''a.tar.gz'' \<lparr>handle_path = [''out'', ''a.tar.gz''], handle_data = ''A''\<rparr>,
        Print (attaching_line [''out'', ''x.gz'']), OpenRb [''out'', ''x.gz''],
        UploadAsset 3 ''application/gzip'' ''x.gz'' \<lparr>handle_path = [''out'', ''x.gz''], handle_data = ''X''\<rparr>],
      open_handles := [[''out'', ''a.tar.gz''], [''out'', ''x.gz'']],
      assets := [(3, ?a), (3, ?x)]\<rparr>"
  have g: "gh_release_of upload_of_b_fails five_gz = (Inr (3, ''/out''), ?s1)"
    by (simp add: gh_release_of_def read_text_def github_def GitHubRepositoryHelper_def
        release_from_tag_def check_env_def emit_def unpack2_def VERSION_FILE_NAME_def
        upload_of_b_fails_def ex_world_def ex_state_def ex_fs_def five_gz_def)
  have fl: "fst (output_files_of ''/out'' ?s1) =
     [[''out'', ''a.tar.gz''], [''out'', ''x.gz'']] @ [''out'', ''b.gz'']
       # [[''out'', ''y.gz''], [''out'', ''z.gz'']]"
    by (simp add: output_files_of_def glob_paths_def ex_state_def ex_fs_def five_gz_def)
  have fl0: "fst (output_files_of ''/out'' five_gz) =
     [[''out'', ''a.tar.gz''], [''out'', ''x.gz'']] @ [''out'', ''b.gz'']
       # [[''out'', ''y.gz''], [''out'', ''z.gz'']]"
    by (simp add: output_files_of_def glob_paths_def ex_state_def ex_fs_def five_gz_def)
  have two: "attach_files upload_of_b_fails 3 [[''out'', ''a.tar.gz''], [''out'', ''x.gz'']]
               (snd (output_files_of ''/out'' ?s1)) = (Inr (), ?s2)"
    by (simp add: output_files_of_def glob_paths_def attach_file_eq emit_def path_name_def
        upload_of_b_fails_def ex_world_def ex_state_def ex_fs_def five_gz_def)
  have rd: "files (fs five_gz) [''out'', ''b.gz''] = Some ''B''"
    by (simp add: ex_state_def ex_fs_def five_gz_def)
  have fail: "api_upload_asset upload_of_b_fails (assets ?s2) 3
             \<lparr>asset_content_type = ''application/gzip'', asset_name = path_name [''out'', ''b.gz''],
                asset_data = ''B''\<rparr>
           = Some (GitHubError ''upload failed'')"
    by (simp add: upload_of_b_fails_def path_name_def)
  note res = upload_failure_aborts [OF g fl two rd fail]
  note c1 = res [THEN conjunct1]
  note c2 = res [THEN conjunct2, THEN conjunct1]
  note c3 = res [THEN conjunct2, THEN conjunct2, THEN conjunct1]
  note c4 = res [THEN conjunct2, THEN conjunct2, THEN conjunct2, THEN conjunct1]
  note c5 = res [THEN conjunct2, THEN conjunct2, THEN conjunct2, THEN conjunct2]
  from c1 have r1: "fst (update_release upload_of_b_fails five_gz) = Inl (GitHubError ''upload failed'')"
    by simp
  from c2 have r2: "exit_code (fst (update_release upload_of_b_fails five_gz)) = 1"
    by simp
  from c3 have r3: "upload_names (new_events five_gz (snd (update_release upload_of_b_fails five_gz)))
       = [''a.tar.gz'', ''x.gz'', ''b.gz'']"
    by (simp add: path_name_def)
  from c4 have r4: "opened_paths (new_events five_gz (snd (update_release upload_of_b_fails five_gz)))
       = [[''out'', ''a.tar.gz''], [''out'', ''x.gz''], [''out'', ''b.gz'']]"
    by simp
  from c5 have r5: "assets (snd (update_release upload_of_b_fails five_gz)) = [(3, ?a), (3, ?x)]"
    by (simp add: path_name_def ex_state_def ex_fs_def five_gz_def)
  from fl0 r1 r2 r3 r4 r5 show ?thesis by blast
qed

subsection \<open>C4\<close>




subsection \<open>C5\<close>

text \<open>
  C5: the release lookup comes before any upload. First part: when the lookup for the
  tag read from the version file raises \<open>e\<close> (\<open>NotFoundError\<close> when no release has
  that tag), the run ends with \<open>e\<close> right after the lookup call; the trace holds no
  glob, no print, no open and no upload, and the assets are untouched. Second part: in
  every run, an upload call is preceded by a release lookup that succeeded, and the
  upload goes to the release that lookup returned.
\<close>

theorem release_lookup_before_uploads:
  "(environ w ''SOURCE_GITHUB_REPO_OWNER_AND_NAME'' = Some r
      \<and> environ w ''MAIN_REPO_DIR'' = Some d
      \<and> environ w ''OUT_PATH'' = Some out
      \<and> split_str CHR ''/'' r = [owner, nm]
      \<and> files (fs s) (resolve (fs s) d @ [''VERSION'']) = Some t
      \<and> cfg_github w ''github_com'' = Inr cfg
      \<and> repository_helper w owner nm cfg = Inr repo
      \<and> api_release_from_tag w repo t = Inl e
    \<longrightarrow> update_release w s =
          (Inl e, s\<lparr>trace := trace s @
                      [ReadText (resolve (fs s) d @ [''VERSION'']), CfgGithub ''github_com'',
                       NewRepositoryHelper owner nm cfg, ReleaseFromTag repo t]\<rparr>))
   \<and> (new_events s (snd (update_release w s)) = pre @ UploadAsset rel ctype anm h # post
    \<longrightarrow> (\<exists>repo' tag. ReleaseFromTag repo' tag \<in> set pre
                     \<and> api_release_from_tag w repo' tag = Inr rel))"
proof (intro conjI impI)
  assume a: "environ w ''SOURCE_GITHUB_REPO_OWNER_AND_NAME'' = Some r
      \<and> environ w ''MAIN_REPO_DIR'' = Some d
      \<and> environ w ''OUT_PATH'' = Some out
      \<and> split_str CHR ''/'' r = [owner, nm]
      \<and> files (fs s) (resolve (fs s) d @ [''VERSION'']) = Some t
      \<and> cfg_github w ''github_com'' = Inr cfg
      \<and> repository_helper w owner nm cfg = Inr repo
      \<and> api_release_from_tag w repo t = Inl e"
  then have "gh_release_of w s =
          (Inl e, s\<lparr>trace := trace s @
                      [ReadText (resolve (fs s) d @ [''VERSION'']), CfgGithub ''github_com'',
                       NewRepositoryHelper owner nm cfg, ReleaseFromTag repo t]\<rparr>)"
    using gh_release_of_reaches_lookup [of w r d out owner nm s t cfg repo] by simp
  then show "update_release w s =
          (Inl e, s\<lparr>trace := trace s @
                      [ReadText (resolve (fs s) d @ [''VERSION'']), CfgGithub ''github_com'',
                       NewRepositoryHelper owner nm cfg, ReleaseFromTag repo t]\<rparr>)"
    by (rule update_release_Inl)
next
  assume up: "new_events s (snd (update_release w s)) = pre @ UploadAsset rel ctype anm h # post"
  obtain res s1 where g: "gh_release_of w s = (res, s1)" by (cases "gh_release_of w s")
  show "\<exists>repo' tag. ReleaseFromTag repo' tag \<in> set pre \<and> api_release_from_tag w repo' tag = Inr rel"
  proof (cases res)
    case (Inl e')
    from gh_release_of_no_uploads [of w s] g obtain tr
      where tr: "trace s1 = trace s @ tr" "upload_names tr = []" by auto
    from Inl g have "update_release w s = (Inl e', s1)" by (simp add: update_release_Inl)
    with tr(1) have "new_events s (snd (update_release w s)) = tr" by (simp add: new_events_def)
    with up tr(2) have "upload_names (pre @ UploadAsset rel ctype anm h # post) = []" by simp
    then show ?thesis by (simp add: upload_names_append)
  next
    case (Inr ro)
    obtain rel' out' where ro: "ro = (rel', out')" by (cases ro)
    with Inr g have g': "gh_release_of w s = (Inr (rel', out'), s1)" by simp
    from gh_release_of_InrD [OF g'] obtain d' owner' nm' t' cfg' repo' where
      api: "api_release_from_tag w repo' t' = Inr rel'" and
      s1: "s1 = s\<lparr>trace := trace s @ [ReadText (resolve (fs s) d' @ [''VERSION'']), CfgGithub ''github_com'',
                                   NewRepositoryHelper owner' nm' cfg', ReleaseFromTag repo' t']\<rparr>"
      by blast
    let ?five = "[ReadText (resolve (fs s) d' @ [''VERSION'']), CfgGithub ''github_com'',
                  NewRepositoryHelper owner' nm' cfg', ReleaseFromTag repo' t',
                  Glob (resolve (fs s) out') ''*.gz'']"
    from update_release_after_lookup [OF g'] obtain k where
      "trace (snd (update_release w s)) =
         trace s1 @ Glob (resolve (fs s) out') ''*.gz'' #
           concat (map (file_events (fs s) rel') (take k (fst (output_files_of out' s1))))"
      by blast
    with s1 have "new_events s (snd (update_release w s)) =
         ?five @ concat (map (file_events (fs s) rel') (take k (fst (output_files_of out' s1))))"
      by (simp add: new_events_def)
    with up have eq: "?five @ concat (map (file_events (fs s) rel') (take k (fst (output_files_of out' s1))))
        = pre @ UploadAsset rel ctype anm h # post"
      by simp
    have "UploadAsset rel ctype anm h \<notin> set ?five" by simp
    from split_after_prefix [OF eq this] obtain pre' where
      pre: "pre = ?five @ pre'" and
      blocks: "concat (map (file_events (fs s) rel') (take k (fst (output_files_of out' s1))))
                = pre' @ UploadAsset rel ctype anm h # post"
      by blast
    from blocks have "UploadAsset rel ctype anm h \<in>
        set (concat (map (file_events (fs s) rel') (take k (fst (output_files_of out' s1)))))"
      by simp
    then have "rel = rel'" by (rule upload_in_blocks_release)
    with api pre show ?thesis by auto
  qed
qed

text \<open>
  Both parts on the example: with no release for the tag the run ends with
  \<open>NotFoundError\<close> after four calls, and in the complete run the first upload comes
  after the successful lookup of release 3.
\<close>

theorem release_lookup_before_uploads_witness:
  "api_release_from_tag without_release 2 ''v1.2.3'' = Inl NotFoundError
   \<and> update_release without_release ex_state =
       (Inl NotFoundError,
        ex_state\<lparr>trace := [ReadText [''repo'', ''VERSION''], CfgGithub ''github_com'',
                            NewRepositoryHelper ''gardener'' ''component-cli'' 1,
                            ReleaseFromTag 2 ''v1.2.3'']\<rparr>)
   \<and> new_events ex_state (snd (update_release ex_world ex_state)) =
       [ReadText [''repo'', ''VERSION''], CfgGithub ''github_com'',
        NewRepositoryHelper ''gardener'' ''component-cli'' 1, ReleaseFromTag 2 ''v1.2.3'',
        Glob [''out''] ''*.gz'', Print ''Attaching file /out/a.tar.gz to the GitHub release'',
        OpenRb [''out'', ''a.tar.gz'']]
       @ UploadAsset 3 ''application/gzip'' ''a.tar.gz''
           \<lparr>handle_path = [''out'', ''a.tar.gz''], handle_data = ''A''\<rparr>
       # [Print ''Attaching file /out/b.gz to the GitHub release'', OpenRb [''out'', ''b.gz''],
          UploadAsset 3 ''application/gzip'' ''b.gz'' \<lparr>handle_path = [''out'', ''b.gz''], handle_data = ''B''\<rparr>]
   \<and> (\<exists>repo' tag. ReleaseFromTag repo' tag \<in> set
          [ReadText [''repo'', ''VERSION''], CfgGithub ''github_com'',
           NewRepositoryHelper ''gardener'' ''component-cli'' 1, ReleaseFromTag 2 ''v1.2.3'',
           Glob [''out''] ''*.gz'', Print ''Attaching file /out/a.tar.gz to the GitHub release'',
           OpenRb [''out'', ''a.tar.gz'']]
        \<and> api_release_from_tag ex_world repo' tag = Inr 3)"
proof -
  have run: "new_events ex_state (snd (update_release ex_world ex_state)) =
       [ReadText [''repo'', ''VERSION''], CfgGithub ''github_com'',
        NewRepositoryHelper ''gardener'' ''component-cli'' 1, ReleaseFromTag 2 ''v1.2.3'',
        Glob [''out''] ''*.gz'', Print ''Attaching file /out/a.tar.gz to the GitHub release'',
        OpenRb [''out'', ''a.tar.gz'']]
       @ UploadAsset 3 ''application/gzip'' ''a.tar.gz''
           \<lparr>handle_path = [''out'', ''a.tar.gz''], handle_data = ''A''\<rparr>
       # [Print ''Attaching file /out/b.gz to the GitHub release'', OpenRb [''out'', ''b.gz''],
          UploadAsset 3 ''application/gzip'' ''b.gz'' \<lparr>handle_path = [''out'', ''b.gz''], handle_data = ''B''\<rparr>]"
    by (simp add: new_events_def update_release_def gh_release_of_def output_files_of_def
        glob_paths_def read_text_def github_def GitHubRepositoryHelper_def release_from_tag_def
        check_env_def attach_file_eq emit_def unpack2_def VERSION_FILE_NAME_def
        attaching_line_def path_str_def path_name_def ex_world_def ex_state_def ex_fs_def)
  have pre: "environ without_release ''SOURCE_GITHUB_REPO_OWNER_AND_NAME'' = Some ''gardener/component-cli''
      \<and> environ without_release ''MAIN_REPO_DIR'' = Some ''/repo''
      \<and> environ without_release ''OUT_PATH'' = Some ''/out''
      \<and> split_str CHR ''/'' ''gardener/component-cli'' = [''gardener'', ''component-cli'']
      \<and> files (fs ex_state) (resolve (fs ex_state) ''/repo'' @ [''VERSION'']) = Some ''v1.2.3''
      \<and> cfg_github without_release ''github_com'' = Inr 1
      \<and> repository_helper without_release ''gardener'' ''component-cli'' 1 = Inr 2
      \<and> api_release_from_tag without_release 2 ''v1.2.3'' = Inl NotFoundError"
    by (simp add: without_release_def ex_world_def ex_state_def ex_fs_def)
  have res: "resolve (fs ex_state) ''/repo'' = [''repo'']" "trace ex_state = []"
    by (simp_all add: ex_state_def ex_fs_def)
  from release_lookup_before_uploads [of without_release "''gardener/component-cli''" "''/repo''" "''/out''"
      "''gardener''" "''component-cli''" ex_state "''v1.2.3''" 1 2 NotFoundError] pre res
  have one: "update_release without_release ex_state =
       (Inl NotFoundError,
        ex_state\<lparr>trace := [ReadText [''repo'', ''VERSION''], CfgGithub ''github_com'',
                            NewRepositoryHelper ''gardener'' ''component-cli'' 1,
                            ReleaseFromTag 2 ''v1.2.3'']\<rparr>)"
    by simp
  from release_lookup_before_uploads [of ex_world _ _ _ _ _ ex_state _ _ _ _ _ 3] run
  have two: "\<exists>repo' tag. ReleaseFromTag repo' tag \<in> set
          [ReadText [''repo'', ''VERSION''], CfgGithub ''github_com'',
           NewRepositoryHelper ''gardener'' ''component-cli'' 1, ReleaseFromTag 2 ''v1.2.3'',
           Glob [''out''] ''*.gz'', Print ''Attaching file /out/a.tar.gz to the GitHub release'',
           OpenRb [''out'', ''a.tar.gz'']]
        \<and> api_release_from_tag ex_world repo' tag = Inr 3"
    by blast
  from pre one run two show ?thesis by blast
qed

subsection \<open>C6\<close>




subsection \<open>C7\<close>

text \<open>
  C7: every upload call of a run goes to the resolved release with the content type
  \<^verbatim>\<open>application/gzip\<close> and, as its name, the base name of the file whose handle it
  receives; that file is a child of the output directory whose name ends in
  \<^verbatim>\<open>.gz\<close>, and the handle carries its contents. The two calls right before the
  upload are the print of the progress line naming the file and the open of the file,
  and that progress line is printed exactly once before the upload call (and not again
  after it). The names of a directory's entries are distinct.
\<close>

theorem upload_call_arguments:
  assumes "gh_release_of w s = (Inr (rel, out), s1)"
      and "dirs (fs s) (resolve (fs s) out) = Some names"
      and "distinct names"
      and "new_events s (snd (update_release w s)) = pre @ UploadAsset rel' ctype anm h # post"
  shows "rel' = rel \<and> ctype = ''application/gzip'' \<and> anm = path_name (handle_path h)
       \<and> (\<exists>n. n \<in> set names \<and> suffix ''.gz'' n \<and> anm = n
                \<and> handle_path h = resolve (fs s) out @ [n])
       \<and> files (fs s) (handle_path h) = Some (handle_data h)
       \<and> (\<exists>pre'. pre = pre' @ [Print (attaching_line (handle_path h)), OpenRb (handle_path h)])
       \<and> count_list pre (Print (attaching_line (handle_path h))) = 1
       \<and> count_list post (Print (attaching_line (handle_path h))) = 0"
proof -
  let ?gz = "filter (suffix ''.gz'') names"
  let ?fl = "map (\<lambda>n. resolve (fs s) out @ [n]) ?gz"
  from assms(1) fs_gh_release_of [of w s] have fs1: "fs s1 = fs s" by simp
  have fl: "fst (output_files_of out s1) = ?fl"
    by (simp add: output_files_gz fs1 assms(2))
  from upload_in_run [OF assms(4)] assms(1) fl obtain tr0 k fl1 f fl2 where
    r: "rel' = rel" "\<forall>l. Print l \<notin> set tr0"
       "take k ?fl = fl1 @ f # fl2"
       "pre = tr0 @ Glob (resolve (fs s) out) ''*.gz'' #
                   concat (map (file_events (fs s) rel') fl1) @ [Print (attaching_line f), OpenRb f]"
       "post = concat (map (file_events (fs s) rel') fl2)"
       "ctype = ''application/gzip''" "anm = path_name f"
       "handle_path h = f" "files (fs s) f = Some (handle_data h)"
    by auto
  from r(3) have "f \<in> set (take k ?fl)" by simp
  then have "f \<in> set ?fl" by (rule in_set_takeD)
  then obtain n where n: "n \<in> set names" "suffix ''.gz'' n" "f = resolve (fs s) out @ [n]"
    by auto
  from n(3) r(7) have anm: "anm = n" by (simp add: path_name_child)
  from assms(3) have "distinct ?gz" by simp
  then have "distinct (map attaching_line ?fl)" by (rule distinct_attaching_lines)
  then have dt: "distinct (take k (map attaching_line ?fl))" by (rule distinct_take)
  have "map attaching_line (fl1 @ f # fl2) = take k (map attaching_line ?fl)"
    unfolding r(3) [symmetric] by (rule take_map [symmetric])
  with dt have "distinct (map attaching_line (fl1 @ f # fl2))"
    by (simp only:)
  then have nin: "attaching_line f \<notin> set (map attaching_line fl1)"
               "attaching_line f \<notin> set (map attaching_line fl2)"
    by auto
  have c0: "count_list tr0 (Print (attaching_line f)) = 0"
    using r(2) by (simp add: count_list_0_iff)
  have c1: "count_list pre (Print (attaching_line f)) = 1"
    unfolding r(4) using c0 nin(1)
    by (simp add: count_print_blocks count_list_0_iff)
  have c2: "count_list post (Print (attaching_line f)) = 0"
    unfolding r(5) using nin(2) by (simp add: count_print_blocks count_list_0_iff)
  have p: "\<exists>pre'. pre = pre' @ [Print (attaching_line f), OpenRb f]"
    using r(4) by (intro exI [of _ "tr0 @ Glob (resolve (fs s) out) ''*.gz'' #
                   concat (map (file_events (fs s) rel') fl1)"]) simp
  from r(1,6,7,8,9) n anm c1 c2 p show ?thesis by auto
qed

text \<open>
  The upload of \<^verbatim>\<open>b.gz\<close> in the example run: its progress line occurs once among
  the ten calls before it.
\<close>

theorem upload_call_arguments_witness:
  "distinct [''a.tar.gz'', ''b.gz'', ''c.txt'']
   \<and> new_events ex_state (snd (update_release ex_world ex_state)) =
       [ReadText [''repo'', ''VERSION''], CfgGithub ''github_com'',
        NewRepositoryHelper ''gardener'' ''component-cli'' 1, ReleaseFromTag 2 ''v1.2.3'',
        Glob [''out''] ''*.gz'',
        Print ''Attaching file /out/a.tar.gz to the GitHub release'',
        OpenRb [''out'', ''a.tar.gz''],
        UploadAsset 3 ''application/gzip'' ''a.tar.gz''
          \<lparr>handle_path = [''out'', ''a.tar.gz''], handle_data = ''A''\<rparr>,
        Print ''Attaching file /out/b.gz to the GitHub release'',
        OpenRb [''out'', ''b.gz'']]
       @ UploadAsset 3 ''application/gzip'' ''b.gz''
           \<lparr>handle_path = [''out'', ''b.gz''], handle_data = ''B''\<rparr> # []
   \<and> ''b.gz'' = path_name (handle_path \<lparr>handle_path = [''out'', ''b.gz''], handle_data = ''B''\<rparr>)
   \<and> files (fs ex_state) (handle_path \<lparr>handle_path = [''out'', ''b.gz''], handle_data = ''B''\<rparr>)
       = Some (handle_data \<lparr>handle_path = [''out'', ''b.gz''], handle_data = ''B''\<rparr>)
   \<and> count_list
        [ReadText [''repo'', ''VERSION''], CfgGithub ''github_com'',
         NewRepositoryHelper ''gardener'' ''component-cli'' 1, ReleaseFromTag 2 ''v1.2.3'',
         Glob [''out''] ''*.gz'',
         Print ''Attaching file /out/a.tar.gz to the GitHub release'',
         OpenRb [''out'', ''a.tar.gz''],
         UploadAsset 3 ''application/gzip'' ''a.tar.gz''
           \<lparr>handle_path = [''out'', ''a.tar.gz''], handle_data = ''A''\<rparr>,
         Print ''Attaching file /out/b.gz to the GitHub release'',
         OpenRb [''out'', ''b.gz'']]
        (Print (attaching_line (handle_path \<lparr>handle_path = [''out'', ''b.gz''], handle_data = ''B''\<rparr>)))
       = 1"
proof -
  have d: "distinct [''a.tar.gz'', ''b.gz'', ''c.txt'']" by simp
  have run: "new_events ex_state (snd (update_release ex_world ex_state)) =
       [ReadText [''repo'', ''VERSION''], CfgGithub ''github_com'',
        NewRepositoryHelper ''gardener'' ''component-cli'' 1, ReleaseFromTag 2 ''v1.2.3'',
        Glob [''out''] ''*.gz'',
        Print ''Attaching file /out/a.tar.gz to the GitHub release'',
        OpenRb [''out'', ''a.tar.gz''],
        UploadAsset 3 ''application/gzip'' ''a.tar.gz''
          \<lparr>handle_path = [''out'', ''a.tar.gz''], handle_data = ''A''\<rparr>,
        Print ''Attaching file /out/b.gz to the GitHub release'',
        OpenRb [''out'', ''b.gz'']]
       @ UploadAsset 3 ''application/gzip'' ''b.gz''
           \<lparr>handle_path = [''out'', ''b.gz''], handle_data = ''B''\<rparr> # []"
    by (simp add: ex_new_events)
  note res = upload_call_arguments [OF ex_gh_release ex_out_dir d run]
  from d run res show ?thesis by blast
qed

subsection \<open>C8\<close>

text \<open>
  C8: when the script has resolved the release and the output directory has no entry
  whose name ends in \<^verbatim>\<open>.gz\<close> (or is no directory at all), the run completes
  normally right after the glob: exit code 0, no upload call, no asset attached.
\<close>

theorem no_artifacts_is_success:
  assumes "gh_release_of w s = (Inr (rel, out), s1)"
      and "\<forall>names. dirs (fs s) (resolve (fs s) out) = Some names
             \<longrightarrow> (\<forall>n \<in> set names. \<not> suffix ''.gz'' n)"
  shows "update_release w s = (Inr (), emit (Glob (resolve (fs s) out) ''*.gz'') s1)
       \<and> exit_code (fst (update_release w s)) = 0
       \<and> upload_names (new_events s (snd (update_release w s))) = []
       \<and> assets (snd (update_release w s)) = assets s"
proof -
  from assms(1) fs_gh_release_of [of w s] have fs: "fs s1 = fs s" by simp
  have none: "fst (output_files_of out s1) = []"
  proof (cases "dirs (fs s) (resolve (fs s) out)")
    case None
    then show ?thesis by (simp add: output_files_of_def glob_paths_def fs)
  next
    case (Some names)
    with assms(2) have "\<forall>n \<in> set names. \<not> glob_match ''*.gz'' n"
      by (simp only: glob_gz) blast
    then have "filter (glob_match ''*.gz'') names = []"
      by (simp add: filter_empty_conv)
    with Some show ?thesis by (simp add: output_files_of_def glob_paths_def fs)
  qed
  have run: "update_release w s = (Inr (), emit (Glob (resolve (fs s) out) ''*.gz'') s1)"
    by (simp add: update_release_Inr [OF assms(1)] none fs)
  from gh_release_of_no_uploads [of w s] assms(1) obtain tr
    where tr: "trace s1 = trace s @ tr" "upload_names tr = []" by auto
  from gh_release_of_InrD [OF assms(1)] have as: "assets s1 = assets s" by auto
  from run tr have "upload_names (new_events s (snd (update_release w s))) = []"
    by (simp add: new_events_def emit_def upload_names_append)
  with run as show ?thesis by (simp add: exit_code_def emit_def)
qed

text \<open>
  An output directory with \<^verbatim>\<open>c.txt\<close>, \<^verbatim>\<open>gz\<close> and \<^verbatim>\<open>x.gz.sig\<close>: nothing matches.
\<close>

theorem no_artifacts_is_success_witness:
  "dirs (fs without_gz) (resolve (fs without_gz) ''/out'') = Some [''c.txt'', ''gz'', ''x.gz.sig'']
   \<and> update_release ex_world without_gz =
       (Inr (), without_gz\<lparr>trace := [ReadText [''repo'', ''VERSION''], CfgGithub ''github_com'',
                                       NewRepositoryHelper ''gardener'' ''component-cli'' 1,
                                       ReleaseFromTag 2 ''v1.2.3'', Glob [''out''] ''*.gz'']\<rparr>)
   \<and> exit_code (fst (update_release ex_world without_gz)) = 0
   \<and> upload_names (new_events without_gz (snd (update_release ex_world without_gz))) = []"
proof -
  have g: "gh_release_of ex_world without_gz =
      (Inr (3, ''/out''),
       without_gz\<lparr>trace := [ReadText [''repo'', ''VERSION''], CfgGithub ''github_com'',
                             NewRepositoryHelper ''gardener'' ''component-cli'' 1,
                             ReleaseFromTag 2 ''v1.2.3'']\<rparr>)"
    by (simp add: gh_release_of_def read_text_def github_def GitHubRepositoryHelper_def
        release_from_tag_def check_env_def emit_def unpack2_def VERSION_FILE_NAME_def
        ex_world_def ex_state_def ex_fs_def without_gz_def)
  have d: "dirs (fs without_gz) (resolve (fs without_gz) ''/out'') = Some [''c.txt'', ''gz'', ''x.gz.sig'']"
    by (simp add: ex_state_def ex_fs_def without_gz_def)
  have r: "resolve (fs without_gz) ''/out'' = [''out'']"
    by (simp add: ex_state_def ex_fs_def without_gz_def)
  have n: "\<forall>names. dirs (fs without_gz) (resolve (fs without_gz) ''/out'') = Some names
             \<longrightarrow> (\<forall>n \<in> set names. \<not> suffix ''.gz'' n)"
    by (simp add: d suffix_def)
  note res = no_artifacts_is_success [OF g n]
  from res have b: "exit_code (fst (update_release ex_world without_gz)) = 0"
    and c: "upload_names (new_events without_gz (snd (update_release ex_world without_gz))) = []"
    by blast+
  from res r have a: "update_release ex_world without_gz =
       (Inr (), without_gz\<lparr>trace := [ReadText [''repo'', ''VERSION''], CfgGithub ''github_com'',
                                       NewRepositoryHelper ''gardener'' ''component-cli'' 1,
                                       ReleaseFromTag 2 ''v1.2.3'', Glob [''out''] ''*.gz'']\<rparr>)"
    by (simp add: emit_def)
  from d a b c show ?thesis by blast
qed

subsection \<open>C9\<close>

text \<open>
  C9: when one of the three required environment variables
  \<^verbatim>\<open>SOURCE_GITHUB_REPO_OWNER_AND_NAME\<close>, \<^verbatim>\<open>MAIN_REPO_DIR\<close>, \<^verbatim>\<open>OUT_PATH\<close> is
  absent, the run ends with the failure of \<^verbatim>\<open>check_env\<close> for an absent variable, and
  the state is the initial one: the version file has not been read, no credentials have
  been resolved and no call to the hosting API has been made.
\<close>

theorem missing_env_var_fails_fast:
  assumes "environ w ''SOURCE_GITHUB_REPO_OWNER_AND_NAME'' = None
         \<or> environ w ''MAIN_REPO_DIR'' = None
         \<or> environ w ''OUT_PATH'' = None"
  shows "\<exists>var \<in> {''SOURCE_GITHUB_REPO_OWNER_AND_NAME'', ''MAIN_REPO_DIR'', ''OUT_PATH''}.
           environ w var = None \<and> update_release w s = (Inl (EnvVarNotSet var), s)"
proof -
  from assms have "\<exists>var \<in> {''SOURCE_GITHUB_REPO_OWNER_AND_NAME'', ''MAIN_REPO_DIR'', ''OUT_PATH''}.
           environ w var = None \<and> gh_release_of w s = (Inl (EnvVarNotSet var), s)"
    by (auto simp: gh_release_of_def check_env_def split: option.splits)
  then show ?thesis by (auto simp: update_release_Inl)
qed

theorem missing_env_var_fails_fast_witness:
  "environ (ex_world\<lparr>environ := (environ ex_world)(''OUT_PATH'' := None)\<rparr>) ''OUT_PATH'' = None
   \<and> update_release (ex_world\<lparr>environ := (environ ex_world)(''OUT_PATH'' := None)\<rparr>) ex_state
       = (Inl (EnvVarNotSet ''OUT_PATH''), ex_state)"
  using missing_env_var_fails_fast [of "ex_world\<lparr>environ := (environ ex_world)(''OUT_PATH'' := None)\<rparr>" ex_state]
  by (simp add: ex_world_def)

subsection \<open>C10\<close>

text \<open>
  C10: the script writes nothing to the local file system. The file system of the final
  state is the one of the initial state, whatever the outcome of the run: the version
  file, the directories and every file of the output directory are unchanged.
\<close>

theorem update_release_no_local_writes:
  "fs (snd (update_release w s)) = fs s
   \<and> files (fs (snd (update_release w s))) = files (fs s)
   \<and> dirs (fs (snd (update_release w s))) = dirs (fs s)"
  by (simp add: fs_update_release)

end
